theory Spec2Isabelle
  imports Complex_Main "HOL-Library.AList" "HOL-Library.Sublist"
begin

section \<open>Data model (models/video.py)\<close>

text \<open>
  A \<open>datetime\<close> is either naive or timezone-aware, and counts microseconds, the
  resolution of Python's type: a naive one from the epoch on its own wall clock, an aware
  one from the epoch in UTC. The match date of a video comes from the caller and may be of
  either kind. The creation and update times are only ever written from
  \<open>datetime.now()\<close>, which returns a naive datetime, so they are kept as the naive count.
  A \<open>dict\<close> is an association list in insertion order, which is the order
  Python iterates it in: \<open>AList.update\<close> overwrites a present key in place and appends an
  absent one, \<open>AList.delete\<close> removes the key. A similarity score is an exact rational:
  the source adds the float literals 0.3, 0.4 and 0.2 to 0.0, and the eight sums that
  can arise are pairwise distinct and ordered as floats exactly as they are as decimals,
  so every comparison of the source has the same outcome on the exact values.
\<close>

datatype datetime = Naive int | Aware int

type_synonym naive_datetime = int

datatype VideoStatus = UPLOADING | PROCESSING | COMPLETED | FAILED

datatype json =
    JNull
  | JBool bool
  | JNum rat
  | JStr string
  | JList "json list"
  | JDict "(string \<times> json) list"

record VideoAnalysis =
  id_a :: string
  video_id_a :: string
  analysis_type :: string
  result_data :: json
  confidence_score :: rat
  created_at_a :: naive_datetime

record Video =
  id_v :: string
  title :: string
  description :: "string option"
  file_path :: string
  file_size :: int
  duration :: "rat option"
  status :: VideoStatus
  sport_type :: "string option"
  match_date :: "datetime option"
  teams :: "string list option"
  created_at :: naive_datetime
  updated_at :: naive_datetime
  analyses :: "VideoAnalysis list option"

record VideoAnalysisRequest =
  analysis_type_q :: string
  parameters :: "(string \<times> json) list option"

text \<open>
  The reason of a recommendation is kept as the list of the factors that fired (the
  source joins their descriptions with commas); the common team names are a set, as in
  the source.
\<close>

datatype reason_part = SameSport | CommonTeams "string set" | SimilarDate


section \<open>Exceptions\<close>

text \<open>
  What the service raises: an \<open>HTTPException\<close> of its own, with the status code and which
  of its messages it carries (the messages of the source are Korean text), or the
  \<open>TypeError\<close> of Python when a naive and an aware datetime are subtracted.
\<close>

datatype detail_msg =
  UnsupportedFormat | FileTooLarge | SaveFailed | VideoNotFound | NotCompleted

datatype error = HTTPException nat detail_msg | TypeError

section \<open>Python helpers\<close>

text \<open>Truth value of an \<open>Optional[str]\<close> and of an \<open>Optional[List]\<close>: \<open>None\<close> and the empty
  value are false.\<close>

fun truthy :: "'a list option \<Rightarrow> bool" where
  "truthy None = False"
| "truthy (Some xs) = (xs \<noteq> [])"

text \<open>The \<open>days\<close> attribute of a \<open>timedelta\<close>: the difference in microseconds, divided by
  the length of a day rounding towards minus infinity.\<close>

definition day_us :: int where
  "day_us = 86400 * 1000000"

definition timedelta_days :: "int \<Rightarrow> int" where
  "timedelta_days d = d div day_us"

text \<open>\<open>d1 - d2\<close> on datetimes, as a \<open>timedelta\<close> in microseconds: two naive ones and two
  aware ones subtract, one of each kind raises.\<close>

definition datetime_sub :: "datetime \<Rightarrow> datetime \<Rightarrow> error + int" where
  "datetime_sub d1 d2 =
     (case (d1, d2) of
        (Naive a, Naive b) \<Rightarrow> Inr (a - b)
      | (Aware a, Aware b) \<Rightarrow> Inr (a - b)
      | _ \<Rightarrow> Inl TypeError)"

text \<open>\<open>xs[start:stop]\<close> for integers: a negative index counts from the end, both ends are
  clamped to the list.\<close>

definition slice_index :: "nat \<Rightarrow> int \<Rightarrow> nat" where
  "slice_index n i = (if i < 0 then nat (max 0 (int n + i)) else min n (nat i))"

definition py_slice :: "'a list \<Rightarrow> int \<Rightarrow> int \<Rightarrow> 'a list" where
  "py_slice xs start stop =
     (let a = slice_index (length xs) start; b = slice_index (length xs) stop
      in take (b - a) (drop a xs))"

text \<open>\<open>xs.sort(key=f, reverse=True)\<close>: descending by key, and stable (elements with equal
  keys keep their order), as Python documents for \<open>reverse\<close>.\<close>

definition sort_desc :: "('a \<Rightarrow> 'k::linordered_ab_group_add) \<Rightarrow> 'a list \<Rightarrow> 'a list" where
  "sort_desc f xs = sort_key (\<lambda>x. - f x) xs"

section \<open>The recommendation engine (VideoService.get_video_recommendations)\<close>

text \<open>The three factors of the loop body, in the source's order. A \<open>datetime\<close> is always
  true as a condition, so \<open>current_video.match_date and video.match_date\<close> asks that both
  are present.\<close>

definition sport_factor :: "Video \<Rightarrow> Video \<Rightarrow> bool" where
  "sport_factor current_video video \<longleftrightarrow>
     truthy (sport_type current_video) \<and> sport_type video = sport_type current_video"

definition common_teams :: "Video \<Rightarrow> Video \<Rightarrow> string set" where
  "common_teams current_video video =
     (case (teams current_video, teams video) of
        (Some a, Some b) \<Rightarrow> set a \<inter> set b
      | _ \<Rightarrow> {})"

definition teams_factor :: "Video \<Rightarrow> Video \<Rightarrow> bool" where
  "teams_factor current_video video \<longleftrightarrow>
     truthy (teams current_video) \<and> truthy (teams video)
     \<and> common_teams current_video video \<noteq> {}"

definition date_factor :: "Video \<Rightarrow> Video \<Rightarrow> error + bool" where
  "date_factor current_video video =
     (case (match_date current_video, match_date video) of
        (Some d1, Some d2) \<Rightarrow>
          (case datetime_sub d1 d2 of
             Inl e \<Rightarrow> Inl e
           | Inr date_diff \<Rightarrow> Inr (\<bar>timedelta_days date_diff\<bar> \<le> 30))
      | _ \<Rightarrow> Inr False)"

text \<open>The body of the loop up to the test of the score: the score and the reason of one
  candidate, or the exception of the subtraction.\<close>

definition similarity :: "Video \<Rightarrow> Video \<Rightarrow> error + (rat \<times> reason_part list)" where
  "similarity current_video video =
     (let s0 = 0;
          r0 = [];
          s1 = (if sport_factor current_video video then s0 + 3/10 else s0);
          r1 = (if sport_factor current_video video then r0 @ [SameSport] else r0);
          s2 = (if teams_factor current_video video then s1 + 4/10 else s1);
          r2 = (if teams_factor current_video video
                then r1 @ [CommonTeams (common_teams current_video video)] else r1)
      in case date_factor current_video video of
           Inl e \<Rightarrow> Inl e
         | Inr close \<Rightarrow>
             Inr (if close then s2 + 2/10 else s2, if close then r2 @ [SimilarDate] else r2))"

definition score_of :: "Video \<Rightarrow> Video \<Rightarrow> error + rat" where
  "score_of current_video video = map_sum id fst (similarity current_video video)"



section \<open>The service state and its environment (VideoService)\<close>

text \<open>
  The two dictionaries of the service, and the part of the environment the service
  talks to: the files that exist, the paths on which opening for writing or removing
  raises, the readings \<open>datetime.now()\<close> returns (the \<open>n\<close>-th call reads \<open>clock n\<close>), and
  what has been printed. A \<open>Video\<close> object is reachable through \<open>videos_db\<close> under its id
  whenever the service mutates it, so the dictionary entry stands for the object and a
  mutation of the object is an update of the entry.
\<close>

datatype log_entry = ProcessingError | FileDeleteError

record world =
  videos_db :: "(string \<times> Video) list"
  analyses_db :: "(string \<times> VideoAnalysis) list"
  files :: "string set"
  io_fails :: "string set"
  clock :: "nat \<Rightarrow> naive_datetime"
  ticks :: nat
  log :: "log_entry list"

definition datetime_now :: "world \<Rightarrow> naive_datetime \<times> world" where
  "datetime_now w = (clock w (ticks w), w\<lparr>ticks := Suc (ticks w)\<rparr>)"

record UploadFile =
  filename :: string
  size_f :: int

subsection \<open>Extension of a file name\<close>

text \<open>\<open>os.path.splitext(p)[1]\<close> on a POSIX system: from the last dot of the last path
  component, unless only dots come before it in that component.\<close>

definition rfind :: "string \<Rightarrow> char \<Rightarrow> int" where
  "rfind p c =
     (if c \<in> set p
      then int (length p) - 1 - int (length (takeWhile (\<lambda>x. x \<noteq> c) (rev p)))
      else - 1)"

definition splitext_ext :: "string \<Rightarrow> string" where
  "splitext_ext p =
     (let sepIndex = rfind p (CHR ''/''); dotIndex = rfind p (CHR ''.'')
      in if dotIndex > sepIndex
            \<and> filter (\<lambda>x. x \<noteq> CHR ''.'')
                 (take (nat (dotIndex - (sepIndex + 1))) (drop (nat (sepIndex + 1)) p)) \<noteq> []
         then drop (nat dotIndex) p else [])"

definition lower_char :: "char \<Rightarrow> char" where
  "lower_char c =
     (if of_char (CHR ''A'') \<le> (of_char c :: nat) \<and> (of_char c :: nat) \<le> of_char (CHR ''Z'')
      then char_of ((of_char c :: nat) + 32) else c)"

definition lower :: "string \<Rightarrow> string" where
  "lower s = map lower_char s"

definition allowed_extensions :: "string set" where
  "allowed_extensions = {''.mp4'', ''.avi'', ''.mov'', ''.mkv'', ''.webm''}"

subsection \<open>The processing pipeline (VideoService._process_video)\<close>

text \<open>
  The two assignments before the awaited sleep, and the two after it. \<open>work_ok\<close> says
  whether the awaited work ended without raising an \<open>Exception\<close>; when it did not, the
  handler sets FAILED and prints.
\<close>

definition begin_processing :: "world \<Rightarrow> string \<Rightarrow> world" where
  "begin_processing w video_id =
     (case map_of (videos_db w) video_id of
        None \<Rightarrow> w
      | Some video \<Rightarrow>
          (let (t, w1) = datetime_now w
           in w1\<lparr>videos_db :=
                  AList.update video_id (video\<lparr>status := PROCESSING, updated_at := t\<rparr>)
                    (videos_db w1)\<rparr>))"

definition finish_processing :: "world \<Rightarrow> string \<Rightarrow> bool \<Rightarrow> world" where
  "finish_processing w video_id work_ok =
     (case map_of (videos_db w) video_id of
        None \<Rightarrow> w
      | Some video \<Rightarrow>
          (let (t, w1) = datetime_now w
           in if work_ok
              then w1\<lparr>videos_db :=
                        AList.update video_id (video\<lparr>status := COMPLETED, updated_at := t\<rparr>)
                          (videos_db w1)\<rparr>
              else w1\<lparr>videos_db :=
                        AList.update video_id (video\<lparr>status := FAILED, updated_at := t\<rparr>)
                          (videos_db w1),
                      log := log w1 @ [ProcessingError]\<rparr>))"

definition process_video :: "world \<Rightarrow> string \<Rightarrow> bool \<Rightarrow> world" where
  "process_video w video_id work_ok =
     (case map_of (videos_db w) video_id of
        None \<Rightarrow> w
      | Some video \<Rightarrow> finish_processing (begin_processing w video_id) video_id work_ok)"

subsection \<open>Upload (VideoService.upload_video)\<close>

text \<open>
  \<open>new_uuid\<close> is the value \<open>str(uuid.uuid4())\<close> returns. \<open>store_video\<close> is the construction of
  the \<open>Video\<close> and its insertion into \<open>videos_db\<close>. The call returns the object it created,
  which is the one \<open>_process_video\<close> has mutated in the meantime: the value returned is the
  entry of the dictionary when the call ends.
\<close>

definition store_video ::
  "world \<Rightarrow> string \<Rightarrow> string \<Rightarrow> string option \<Rightarrow> string \<Rightarrow> int \<Rightarrow> string option
     \<Rightarrow> datetime option \<Rightarrow> string list option \<Rightarrow> Video \<times> world" where
  "store_video w video_id title' description' file_path' file_size' sport_type' match_date' teams' =
     (let (t1, w1) = datetime_now w;
          (t2, w2) = datetime_now w1;
          video = \<lparr>id_v = video_id, title = title', description = description',
                   file_path = file_path', file_size = file_size', duration = None,
                   status = UPLOADING, sport_type = sport_type', match_date = match_date',
                   teams = teams', created_at = t1, updated_at = t2, analyses = Some []\<rparr>
      in (video, w2\<lparr>videos_db := AList.update video_id video (videos_db w2)\<rparr>))"

definition upload_video ::
  "world \<Rightarrow> UploadFile \<Rightarrow> string \<Rightarrow> string option \<Rightarrow> string option \<Rightarrow> datetime option
     \<Rightarrow> string list option \<Rightarrow> string \<Rightarrow> bool \<Rightarrow> error + (Video \<times> world)" where
  "upload_video w file title' description' sport_type' match_date' teams' new_uuid work_ok =
     (let file_extension = lower (splitext_ext (filename file))
      in if file_extension \<notin> allowed_extensions then Inl (HTTPException 400 UnsupportedFormat)
         else if size_f file > 100 * 1024 * 1024 then Inl (HTTPException 400 FileTooLarge)
         else
           (let video_id = new_uuid;
                file_path' = ''uploads/'' @ video_id @ file_extension
            in if file_path' \<in> io_fails w then Inl (HTTPException 500 SaveFailed)
               else
                 (let w1 = w\<lparr>files := insert file_path' (files w)\<rparr>;
                      (video, w2) = store_video w1 video_id title' description' file_path'
                                      (size_f file) sport_type' match_date' teams';
                      w3 = process_video w2 video_id work_ok
                  in case map_of (videos_db w3) video_id of
                       Some video' \<Rightarrow> Inr (video', w3)
                     | None \<Rightarrow> Inr (video, w3))))"

subsection \<open>Queries\<close>

definition get_video_history :: "world \<Rightarrow> int \<Rightarrow> int \<Rightarrow> Video list" where
  "get_video_history w limit offset =
     (let videos = sort_desc created_at (map snd (videos_db w))
      in py_slice videos offset (offset + limit))"

definition get_video_by_id :: "world \<Rightarrow> string \<Rightarrow> Video option" where
  "get_video_by_id w video_id = map_of (videos_db w) video_id"

definition get_video_analyses :: "world \<Rightarrow> string \<Rightarrow> error + VideoAnalysis list" where
  "get_video_analyses w video_id =
     (case get_video_by_id w video_id of
        None \<Rightarrow> Inl (HTTPException 404 VideoNotFound)
      | Some video \<Rightarrow> Inr (case analyses video of None \<Rightarrow> [] | Some xs \<Rightarrow> xs))"


subsection \<open>Analysis (VideoService.analyze_video)\<close>

definition placeholder_results :: json where
  "placeholder_results =
     JDict [(''detected_events'', JList []), (''statistics'', JDict []), (''highlights'', JList [])]"

definition analyze_video ::
  "world \<Rightarrow> string \<Rightarrow> VideoAnalysisRequest \<Rightarrow> string \<Rightarrow> error + (VideoAnalysis \<times> world)" where
  "analyze_video w video_id analysis_request new_uuid =
     (case get_video_by_id w video_id of
        None \<Rightarrow> Inl (HTTPException 404 VideoNotFound)
      | Some video \<Rightarrow>
          if status video \<noteq> COMPLETED then Inl (HTTPException 400 NotCompleted)
          else
            (let analysis_id = new_uuid;
                 result_data' =
                   JDict [(''analysis_type'', JStr (analysis_type_q analysis_request)),
                          (''parameters'',
                             JDict (case parameters analysis_request of None \<Rightarrow> [] | Some p \<Rightarrow> p)),
                          (''results'', placeholder_results)];
                 (t, w1) = datetime_now w;
                 analysis = \<lparr>id_a = analysis_id, video_id_a = video_id,
                              analysis_type = analysis_type_q analysis_request,
                              result_data = result_data', confidence_score = 85/100,
                              created_at_a = t\<rparr>;
                 w2 = w1\<lparr>analyses_db := AList.update analysis_id analysis (analyses_db w1)\<rparr>;
                 old = (case analyses video of None \<Rightarrow> [] | Some xs \<Rightarrow> xs);
                 w3 = w2\<lparr>videos_db :=
                          AList.update video_id (video\<lparr>analyses := Some (old @ [analysis])\<rparr>)
                            (videos_db w2)\<rparr>
             in Inr (analysis, w3)))"

subsection \<open>Deletion (VideoService.delete_video)\<close>

definition remove_file :: "world \<Rightarrow> string \<Rightarrow> world" where
  "remove_file w path =
     (if path \<in> files w
      then (if path \<in> io_fails w then w\<lparr>log := log w @ [FileDeleteError]\<rparr>
            else w\<lparr>files := files w - {path}\<rparr>)
      else w)"

definition delete_video :: "world \<Rightarrow> string \<Rightarrow> error + (bool \<times> world)" where
  "delete_video w video_id =
     (case get_video_by_id w video_id of
        None \<Rightarrow> Inl (HTTPException 404 VideoNotFound)
      | Some video \<Rightarrow>
          (let w1 = remove_file w (file_path video);
               w2 = (if video_id \<in> fst ` set (videos_db w1)
                     then w1\<lparr>videos_db := AList.delete video_id (videos_db w1)\<rparr>
                     else w1)
           in Inr (True, w2)))"

section \<open>The analysis provider (utils/video_utils.py)\<close>

text \<open>
  \<open>cap\<close> is what \<open>cv2.VideoCapture\<close> did: the capture opened, did not open, or an
  exception was raised. \<open>timestamp\<close> is \<open>datetime.now().isoformat()\<close>. Message texts are
  rendered in English.
\<close>

datatype capture = Opened | NotOpened | Raised

definition detect_goals :: json where
  "detect_goals =
     JDict [(''goals_detected'', JNum 3),
            (''goal_timestamps'', JList [JNum (452/10), JNum (678/10), JNum (891/10)]),
            (''confidence_scores'', JList [JNum (92/100), JNum (88/100), JNum (95/100)]),
            (''scoring_team'', JList [JStr ''Team A'', JStr ''Team B'', JStr ''Team A''])]"

definition track_players :: json where
  "track_players =
     JDict [(''players_tracked'', JNum 22),
            (''tracking_data'',
               JDict [(''player_positions'', JList []), (''movement_patterns'', JDict []),
                      (''heat_maps'', JDict [])]),
            (''team_possession'',
               JDict [(''team_a'', JNum (52/100)), (''team_b'', JNum (48/100))])]"

definition analyze_tactics :: json where
  "analyze_tactics =
     JDict [(''formation_detected'', JStr ''4-3-3''),
            (''tactical_events'',
               JList [JDict [(''time'', JNum (153/10)), (''event'', JStr ''counter_attack''),
                             (''team'', JStr ''Team A'')],
                      JDict [(''time'', JNum (327/10)), (''event'', JStr ''pressing''),
                             (''team'', JStr ''Team B'')],
                      JDict [(''time'', JNum (589/10)), (''event'', JStr ''set_piece''),
                             (''team'', JStr ''Team A'')]]),
            (''possession_stats'',
               JDict [(''team_a'', JDict [(''possession'', JNum (52/100)), (''passes'', JNum 423),
                                          (''shots'', JNum 8)]),
                      (''team_b'', JDict [(''possession'', JNum (48/100)), (''passes'', JNum 387),
                                          (''shots'', JNum 6)])])]"

definition analyze_video_content :: "capture \<Rightarrow> string \<Rightarrow> string \<Rightarrow> json" where
  "analyze_video_content cap timestamp analysis_type' =
     (case cap of
        Raised \<Rightarrow> JDict [(''error'', JStr ''error while analysing the video'')]
      | NotOpened \<Rightarrow> JDict [(''error'', JStr ''cannot open the video'')]
      | Opened \<Rightarrow>
          JDict [(''analysis_type'', JStr analysis_type'),
                 (''timestamp'', JStr timestamp),
                 (''results'',
                    (if analysis_type' = ''goal_detection'' then detect_goals
                     else if analysis_type' = ''player_tracking'' then track_players
                     else if analysis_type' = ''tactical_analysis'' then analyze_tactics
                     else JDict [(''error'', JStr ''unsupported analysis type'')]))])"

text \<open>Reading a key of a payload, and the keys of a payload (its shape at top level).\<close>

fun json_get :: "json \<Rightarrow> string \<Rightarrow> json option" where
  "json_get (JDict kvs) k = map_of kvs k"
| "json_get _ k = None"

fun json_keys :: "json \<Rightarrow> string list" where
  "json_keys (JDict kvs) = map fst kvs"
| "json_keys _ = []"

section \<open>Runs of the service\<close>

text \<open>\<open>VideoService.__init__\<close>: both dictionaries empty, in an environment with the given
  clock and failing paths.\<close>

definition init :: "(nat \<Rightarrow> naive_datetime) \<Rightarrow> string set \<Rightarrow> world" where
  "init c fails =
     \<lparr>videos_db = [], analyses_db = [], files = {}, io_fails = fails, clock = c, ticks = 0,
      log = []\<rparr>"

text \<open>
  The calls that change the state, and the pipeline's two stages on their own: between
  them the source is suspended and other calls may run. A call that raises leaves the
  state as it was.
\<close>

datatype event =
    Upload UploadFile string "string option" "string option" "datetime option"
      "string list option" string bool
  | Store string string "string option" string int "string option" "datetime option"
      "string list option"
  | Begin string
  | Finish string bool
  | Analyze string VideoAnalysisRequest string
  | Delete string

fun apply_event :: "event \<Rightarrow> world \<Rightarrow> world" where
  "apply_event (Upload file t d s m ts u ok) w =
     (case upload_video w file t d s m ts u ok of Inl e \<Rightarrow> w | Inr (v, w') \<Rightarrow> w')"
| "apply_event (Store i t d p n s m ts) w = snd (store_video w i t d p n s m ts)"
| "apply_event (Begin i) w = begin_processing w i"
| "apply_event (Finish i ok) w = finish_processing w i ok"
| "apply_event (Analyze i r u) w =
     (case analyze_video w i r u of Inl e \<Rightarrow> w | Inr (a, w') \<Rightarrow> w')"
| "apply_event (Delete i) w =
     (case delete_video w i of Inl e \<Rightarrow> w | Inr (b, w') \<Rightarrow> w')"

definition run :: "event list \<Rightarrow> world \<Rightarrow> world" where
  "run evs w = fold apply_event evs w"

text \<open>Timestamps of a state: no record is updated before it was created, nor after the
  next reading of the clock.\<close>

definition ts_inv :: "world \<Rightarrow> bool" where
  "ts_inv w \<longleftrightarrow>
     (\<forall>k v. map_of (videos_db w) k = Some v
        \<longrightarrow> created_at v \<le> updated_at v \<and> updated_at v \<le> clock w (ticks w))"

definition advances :: "world \<Rightarrow> world \<Rightarrow> bool" where
  "advances w w' \<longleftrightarrow>
     clock w' = clock w \<and> ticks w \<le> ticks w' \<and> (ts_inv w \<longrightarrow> ts_inv w')
     \<and> (\<forall>k v'. map_of (videos_db w') k = Some v'
           \<longrightarrow> (\<exists>v. map_of (videos_db w) k = Some v \<and> updated_at v' = updated_at v)
               \<or> clock w (ticks w) \<le> updated_at v')"

text \<open>Every key of the catalog is the id of its record.\<close>

definition keys_ok :: "world \<Rightarrow> bool" where
  "keys_ok w \<longleftrightarrow> list_all (\<lambda>(k, v). id_v v = k) (videos_db w)"

section \<open>Example states\<close>

definition mk_video ::
  "string \<Rightarrow> string option \<Rightarrow> string list option \<Rightarrow> datetime option \<Rightarrow> naive_datetime \<Rightarrow> Video" where
  "mk_video i sp tm md t =
     \<lparr>id_v = i, title = ''match '' @ i, description = None,
      file_path = ''uploads/'' @ i @ ''.mp4'', file_size = 1024, duration = None,
      status = COMPLETED, sport_type = sp, match_date = md, teams = tm,
      created_at = t, updated_at = t, analyses = Some []\<rparr>"

definition seconds :: "nat \<Rightarrow> naive_datetime" where
  "seconds n = int n * 1000000"

definition catalog :: "Video list \<Rightarrow> world" where
  "catalog vs = (init seconds {})\<lparr>videos_db := map (\<lambda>v. (id_v v, v)) vs, ticks := 100\<rparr>"

text \<open>A target and four candidates: two tie on the sport alone, one also shares a team,
  one shares nothing.\<close>

definition soccer_catalog :: world where
  "soccer_catalog = catalog
     [mk_video ''a'' (Some ''soccer'') (Some [''X'', ''Y'']) None 1,
      mk_video ''b'' (Some ''soccer'') None None 2,
      mk_video ''c'' (Some ''soccer'') (Some [''Y'', ''Z'', ''Y'']) None 3,
      mk_video ''d'' (Some ''soccer'') (Some [''W'']) None 4,
      mk_video ''e'' (Some ''tennis'') None None 5]"

text \<open>Two videos whose match dates are 30 days and one hour apart.\<close>

definition late_video :: Video where
  "late_video = mk_video ''late'' None None (Some (Naive (30 * day_us + 3600 * 1000000))) 2"

definition early_video :: Video where
  "early_video = mk_video ''early'' None None (Some (Naive 0)) 1"

text \<open>A catalog with a naive and an aware match date.\<close>

definition mixed_catalog :: world where
  "mixed_catalog = catalog
     [mk_video ''n'' (Some ''soccer'') None (Some (Naive 0)) 1,
      mk_video ''z'' (Some ''soccer'') None (Some (Aware 0)) 2]"

definition goal_request :: "string \<Rightarrow> VideoAnalysisRequest" where
  "goal_request t = \<lparr>analysis_type_q = t, parameters = None\<rparr>"

definition match_file :: UploadFile where
  "match_file = \<lparr>filename = ''Match.MP4'', size_f = 1024\<rparr>"

text \<open>A catalog whose only video is still being processed, and one whose first video has
  a file that cannot be removed.\<close>

definition processing_catalog :: world where
  "processing_catalog = catalog [(mk_video ''p'' None None None 1)\<lparr>status := PROCESSING\<rparr>]"

definition locked_catalog :: world where
  "locked_catalog =
     (catalog [mk_video ''a'' None None None 1, mk_video ''b'' None None None 2])
       \<lparr>files := {''uploads/a.mp4'', ''uploads/b.mp4''}, io_fails := {''uploads/a.mp4''}\<rparr>"

text \<open>The payload of the analysis a call returned, and its \<open>results\<close> entry.\<close>

definition payload_of :: "error + (VideoAnalysis \<times> world) \<Rightarrow> json option" where
  "payload_of r = (case r of Inl e \<Rightarrow> None | Inr (a, w') \<Rightarrow> Some (result_data a))"

definition results_of :: "error + (VideoAnalysis \<times> world) \<Rightarrow> json option" where
  "results_of r = (case r of Inl e \<Rightarrow> None | Inr (a, w') \<Rightarrow> json_get (result_data a) ''results'')"

section \<open>Helper lemmas\<close>

lemmas example_defs =
  soccer_catalog_def catalog_def init_def mk_video_def seconds_def late_video_def
  early_video_def goal_request_def day_us_def processing_catalog_def locked_catalog_def
  mixed_catalog_def

lemmas score_defs =
  score_of_def similarity_def sport_factor_def teams_factor_def date_factor_def
  datetime_sub_def common_teams_def timedelta_days_def Let_def

subsection \<open>Slices and sorting\<close>


lemma py_slice_nonneg:
  "0 \<le> a \<Longrightarrow> 0 \<le> n \<Longrightarrow> py_slice xs a (a + n) = take (nat n) (drop (nat a) xs)"
  unfolding py_slice_def slice_index_def Let_def
  by (auto simp: min_def nat_add_distrib)

lemma set_py_slice: "set (py_slice xs a b) \<subseteq> set xs"
  unfolding py_slice_def Let_def
  by (meson set_take_subset set_drop_subset subset_trans)




subsection \<open>Whole days of a difference\<close>

lemma int_le_div_iff:
  assumes "0 < (D::int)"
  shows "k \<le> d div D \<longleftrightarrow> k * D \<le> d"
proof
  assume "k \<le> d div D"
  then have "k * D \<le> (d div D) * D"
    using assms by (simp add: mult_right_mono)
  also have "\<dots> = d - d mod D"
    by (simp add: minus_mod_eq_div_mult)
  also have "\<dots> \<le> d"
    using assms by simp
  finally show "k * D \<le> d" .
next
  assume "k * D \<le> d"
  then have "(k * D) div D \<le> d div D"
    using assms by (rule zdiv_mono1)
  then show "k \<le> d div D"
    using assms by simp
qed

lemma int_div_le_iff:
  assumes "0 < (D::int)"
  shows "d div D \<le> k \<longleftrightarrow> d < (k + 1) * D"
proof -
  have "d div D \<le> k \<longleftrightarrow> \<not> (k + 1 \<le> d div D)" by linarith
  also have "\<dots> \<longleftrightarrow> \<not> ((k + 1) * D \<le> d)"
    using assms by (simp only: int_le_div_iff)
  also have "\<dots> \<longleftrightarrow> d < (k + 1) * D" by linarith
  finally show ?thesis .
qed

lemma timedelta_days_window:
  "\<bar>timedelta_days d\<bar> \<le> 30 \<longleftrightarrow> - 30 * day_us \<le> d \<and> d < 31 * day_us"
proof -
  have pos: "0 < day_us" by (simp add: day_us_def)
  have "\<bar>timedelta_days d\<bar> \<le> 30 \<longleftrightarrow> - 30 \<le> d div day_us \<and> d div day_us \<le> 30"
    unfolding timedelta_days_def by linarith
  also have "\<dots> \<longleftrightarrow> - 30 * day_us \<le> d \<and> d < (30 + 1) * day_us"
    by (simp only: int_le_div_iff [OF pos] int_div_le_iff [OF pos])
  finally show ?thesis by simp
qed

section \<open>The similarity score\<close>



text \<open>When it returns, the score is the sum of the three contributions of the loop body,
  and nothing else.\<close>

lemma score_of_sum:
  assumes "date_factor current_video video = Inr close"
  shows "score_of current_video video =
     Inr ((if sport_factor current_video video then 3/10 else 0)
          + (if teams_factor current_video video then 4/10 else 0)
          + (if close then 2/10 else 0))"
  using assms by (simp add: score_of_def similarity_def)

text \<open>The team factor fires exactly when the two team lists, as sets, meet.\<close>

lemma teams_factor_iff:
  "teams_factor current_video video \<longleftrightarrow>
     (\<exists>a b. teams current_video = Some a \<and> teams video = Some b \<and> set a \<inter> set b \<noteq> {})"
  unfolding teams_factor_def common_teams_def
  by (cases "teams current_video"; cases "teams video") auto

text \<open>
  The date factor takes the absolute value of the whole days of the signed difference,
  not the whole days of the absolute difference: it fires when the target's date is up
  to 30 days before the candidate's, or less than 31 days after it.
\<close>

lemma date_factor_window:
  assumes "match_date current_video = Some (Naive d1) \<and> match_date video = Some (Naive d2)
           \<or> match_date current_video = Some (Aware d1) \<and> match_date video = Some (Aware d2)"
  shows "date_factor current_video video
           = Inr (- 30 * day_us \<le> d1 - d2 \<and> d1 - d2 < 31 * day_us)"
  using assms unfolding date_factor_def datetime_sub_def
  by (auto simp: timedelta_days_window)

text \<open>On dates without a time of day the factor is the absolute difference of at most
  30 days.\<close>

lemma date_factor_whole_days:
  assumes "match_date current_video = Some (Naive (a * day_us))"
    and "match_date video = Some (Naive (b * day_us))"
  shows "date_factor current_video video = Inr (\<bar>a * day_us - b * day_us\<bar> \<le> 30 * day_us)"
proof -
  define x where "x = a - b"
  have eq: "a * day_us - b * day_us = x * day_us"
    by (simp add: x_def left_diff_distrib)
  have "date_factor current_video video = Inr (\<bar>timedelta_days (x * day_us)\<bar> \<le> 30)"
    using assms by (simp add: date_factor_def datetime_sub_def eq)
  moreover have "timedelta_days (x * day_us) = x"
    by (simp add: timedelta_days_def day_us_def)
  moreover have "(\<bar>x * day_us\<bar> \<le> 30 * day_us) = (\<bar>x\<bar> \<le> 30)"
    unfolding day_us_def by (simp add: abs_mult)
  ultimately show ?thesis
    by (simp add: eq)
qed

text \<open>
  C2 (the score is the sum of 0.3 for a shared non-empty sport type, 0.4 for a common
  team and 0.2 for match dates whose absolute difference is at most 30 days): the first
  two contributions are as stated. The third is not: for a target whose match date is
  30 days and one hour after the candidate's the absolute difference exceeds 30 days and
  the source still adds 0.2, while with the two videos exchanged it adds nothing.
\<close>

theorem score_date_asymmetric:
  "match_date late_video = Some (Naive (30 * day_us + 3600 * 1000000))
   \<and> match_date early_video = Some (Naive 0)
   \<and> \<bar>(30 * day_us + 3600 * 1000000) - 0\<bar> > 30 * day_us
   \<and> score_of late_video early_video = Inr (2/10)
   \<and> score_of early_video late_video = Inr 0"
  by (simp add: example_defs score_defs)

section \<open>Recommendations\<close>








section \<open>Listing the catalog\<close>

text \<open>For an offset and a limit that are not negative, the list is the window
  \<open>[offset, offset + limit)\<close> of the catalog sorted by creation time, newest first.\<close>

lemma get_video_history_window:
  assumes "0 \<le> offset" "0 \<le> limit"
  shows "get_video_history w limit offset =
           take (nat limit) (drop (nat offset) (sort_desc created_at (map snd (videos_db w))))"
  using assms by (simp add: get_video_history_def py_slice_nonneg)

lemma get_video_history_beyond:
  assumes "int (length (videos_db w)) \<le> offset" "0 \<le> limit"
  shows "get_video_history w limit offset = []"
proof -
  have "0 \<le> offset" using assms(1) by linarith
  then show ?thesis
    using assms by (simp add: get_video_history_window sort_desc_def)
qed

lemma get_video_history_zero: "0 \<le> offset \<Longrightarrow> get_video_history w 0 offset = []"
  by (simp add: get_video_history_window)

text \<open>
  C5 (the list is the window \<open>[offset, offset + limit)\<close> of the catalog sorted newest
  first; empty when the offset is beyond the catalog; empty when the limit is zero or
  negative): a negative limit is not answered by the empty sequence. The slice
  \<open>videos[0:-1]\<close> is every video but the last, so on a catalog of five videos limit -1
  with offset 0 lists four.
\<close>

theorem history_negative_limit:
  "map id_v (get_video_history soccer_catalog (- 1) 0) = [''e'', ''d'', ''c'', ''b'']"
  by (simp add: get_video_history_def example_defs py_slice_def slice_index_def sort_desc_def)

section \<open>Upload and the pipeline\<close>

lemma match_file_extension: "lower (splitext_ext (filename match_file)) = ''.mp4''"
  by code_simp

lemma match_file_size: "size_f match_file = 1024"
  by (simp add: match_file_def)

text \<open>A successful upload returns the record as the pipeline left it.\<close>

lemma upload_video_status:
  assumes "upload_video w file t d s m ts u ok = Inr (v, w')"
  shows "status v = (if ok then COMPLETED else FAILED)"
  using assms
  by (auto simp: upload_video_def store_video_def process_video_def begin_processing_def
        finish_processing_def datetime_now_def Let_def update_conv'
      split: if_splits option.splits prod.splits)

text \<open>
  C1 (an upload that passes validation returns the new record with status UPLOADING,
  without waiting for the pipeline): the source awaits \<open>_process_video\<close> before it
  returns, and the pipeline mutates the very object that is returned. The upload of a
  1024-byte file \<open>Match.MP4\<close> passes both checks and returns a record whose status is
  COMPLETED.
\<close>

theorem upload_returns_completed:
  "lower (splitext_ext (filename match_file)) \<in> allowed_extensions
   \<and> size_f match_file \<le> 100 * 1024 * 1024
   \<and> map_sum id (status \<circ> fst)
        (upload_video (init seconds {}) match_file ''final'' None None None None ''u1'' True)
      = Inr COMPLETED"
  by (simp add: upload_video_def match_file_extension match_file_size allowed_extensions_def
        store_video_def process_video_def begin_processing_def finish_processing_def
        datetime_now_def init_def Let_def)

section \<open>Analysis\<close>

lemma update_fresh: "k \<notin> fst ` set al \<Longrightarrow> AList.update k v al = al @ [(k, v)]"
  by (induction al) auto

lemma update_keys_present:
  "map_of al k = Some x \<Longrightarrow> map fst (AList.update k v al) = map fst al"
  by (induction al) (auto split: if_splits)

lemma soccer_analyze:
  "\<exists>a w'. analyze_video soccer_catalog ''a'' (goal_request t) ''n1'' = Inr (a, w')"
  by (simp add: analyze_video_def get_video_by_id_def datetime_now_def Let_def example_defs)

text \<open>
  C4: \<open>analyze\<close> raises the 404 error when no video has the id, the 400 error when the
  video is not COMPLETED, and on a COMPLETED video returns the new analysis, which is
  then the one entry added at the end of the video's analyses and the one entry added to
  the analysis catalog. The id \<open>uuid4\<close> hands out is taken to be one that the analysis
  catalog does not hold yet.
\<close>

theorem analyze_video_outcomes:
  "(get_video_by_id w video_id = None
      \<longrightarrow> analyze_video w video_id req u = Inl (HTTPException 404 VideoNotFound))
   \<and> (\<forall>v. get_video_by_id w video_id = Some v \<and> status v \<noteq> COMPLETED
      \<longrightarrow> analyze_video w video_id req u = Inl (HTTPException 400 NotCompleted))
   \<and> (\<forall>v old. get_video_by_id w video_id = Some v \<and> status v = COMPLETED
        \<and> get_video_analyses w video_id = Inr old \<and> u \<notin> fst ` set (analyses_db w)
      \<longrightarrow> (\<exists>a w'. analyze_video w video_id req u = Inr (a, w')
             \<and> get_video_analyses w' video_id = Inr (old @ [a])
             \<and> analyses_db w' = analyses_db w @ [(u, a)]))"
  by (auto simp: analyze_video_def get_video_analyses_def get_video_by_id_def datetime_now_def
        Let_def update_conv' update_fresh
      split: option.splits)


theorem analyze_video_outcomes_witness:
  "get_video_by_id soccer_catalog ''zz'' = None
   \<and> analyze_video soccer_catalog ''zz'' (goal_request ''goal_detection'') ''n1''
       = Inl (HTTPException 404 VideoNotFound)
   \<and> map_option status (get_video_by_id processing_catalog ''p'') = Some PROCESSING
   \<and> analyze_video processing_catalog ''p'' (goal_request ''goal_detection'') ''n1''
       = Inl (HTTPException 400 NotCompleted)
   \<and> map_option status (get_video_by_id soccer_catalog ''a'') = Some COMPLETED
   \<and> get_video_analyses soccer_catalog ''a'' = Inr []
   \<and> ''n1'' \<notin> fst ` set (analyses_db soccer_catalog)
   \<and> (\<exists>a w'. analyze_video soccer_catalog ''a'' (goal_request ''goal_detection'') ''n1''
                = Inr (a, w')
          \<and> get_video_analyses w' ''a'' = Inr [a]
          \<and> analyses_db w' = [(''n1'', a)])"
proof -
  let ?r = "goal_request ''goal_detection''"
  have h1: "get_video_by_id soccer_catalog ''zz'' = None"
    by (simp add: get_video_by_id_def example_defs)
  have h2: "get_video_by_id processing_catalog ''p''
              = Some ((mk_video ''p'' None None None 1)\<lparr>status := PROCESSING\<rparr>)"
    by (simp add: get_video_by_id_def example_defs)
  have h3: "get_video_by_id soccer_catalog ''a''
              = Some (mk_video ''a'' (Some ''soccer'') (Some [''X'', ''Y'']) None 1)"
    by (simp add: get_video_by_id_def example_defs)
  have h4: "get_video_analyses soccer_catalog ''a'' = Inr []"
    by (simp add: get_video_analyses_def h3) (simp add: mk_video_def)
  have h5: "''n1'' \<notin> fst ` set (analyses_db soccer_catalog)"
    by (simp add: example_defs)
  have c1: "analyze_video soccer_catalog ''zz'' ?r ''n1'' = Inl (HTTPException 404 VideoNotFound)"
    using analyze_video_outcomes [of soccer_catalog "''zz''" ?r "''n1''"] h1 by blast
  have c2: "analyze_video processing_catalog ''p'' ?r ''n1'' = Inl (HTTPException 400 NotCompleted)"
    using analyze_video_outcomes [of processing_catalog "''p''" ?r "''n1''"] h2 by simp
  have c3: "\<exists>a w'. analyze_video soccer_catalog ''a'' ?r ''n1'' = Inr (a, w')
          \<and> get_video_analyses w' ''a'' = Inr ([] @ [a])
          \<and> analyses_db w' = analyses_db soccer_catalog @ [(''n1'', a)]"
    using analyze_video_outcomes [of soccer_catalog "''a''" ?r "''n1''"] h3 h4 h5
    by (simp add: mk_video_def)
  have e: "analyses_db soccer_catalog = []"
    by (simp add: example_defs)
  show ?thesis
    using h1 h2 h3 h4 h5 c1 c2 c3 unfolding e by (simp add: mk_video_def)
qed

text \<open>
  C8: a successful \<open>analyze\<close> changes, in the video catalog, nothing but the analyses of
  the target: the target's record is the old one with other analyses (so its status and
  its update time are the old ones), every other key holds what it held, the keys keep
  their order, and neither the files nor the log change.
\<close>

theorem analyze_video_frame:
  assumes "analyze_video w video_id req u = Inr (a, w')"
  shows "\<exists>v v'. get_video_by_id w video_id = Some v \<and> get_video_by_id w' video_id = Some v'
           \<and> v' = v\<lparr>analyses := analyses v'\<rparr>
           \<and> updated_at v' = updated_at v \<and> status v' = status v
           \<and> (\<forall>k. k \<noteq> video_id \<longrightarrow> get_video_by_id w' k = get_video_by_id w k)
           \<and> map fst (videos_db w') = map fst (videos_db w)
           \<and> files w' = files w \<and> log w' = log w"
  using assms
  by (auto simp: analyze_video_def get_video_by_id_def datetime_now_def Let_def update_conv'
        update_keys_present
      split: option.splits if_splits)


theorem analyze_video_frame_witness:
  "\<exists>a w'. analyze_video soccer_catalog ''a'' (goal_request ''goal_detection'') ''n1'' = Inr (a, w')
      \<and> map_option updated_at (get_video_by_id w' ''a'')
          = map_option updated_at (get_video_by_id soccer_catalog ''a'')
      \<and> map_option status (get_video_by_id w' ''a'') = Some COMPLETED
      \<and> get_video_by_id w' ''b'' = get_video_by_id soccer_catalog ''b''
      \<and> map fst (videos_db w') = [''a'', ''b'', ''c'', ''d'', ''e'']"
proof -
  obtain a w' where
    r: "analyze_video soccer_catalog ''a'' (goal_request ''goal_detection'') ''n1'' = Inr (a, w')"
    using soccer_analyze by blast
  from analyze_video_frame [OF r] obtain v v' where
    f: "get_video_by_id soccer_catalog ''a'' = Some v" "get_video_by_id w' ''a'' = Some v'"
      "updated_at v' = updated_at v" "status v' = status v"
      "\<forall>k. k \<noteq> ''a'' \<longrightarrow> get_video_by_id w' k = get_video_by_id soccer_catalog k"
      "map fst (videos_db w') = map fst (videos_db soccer_catalog)"
    by blast
  have v: "v = mk_video ''a'' (Some ''soccer'') (Some [''X'', ''Y'']) None 1"
    using f(1) by (simp add: get_video_by_id_def example_defs)
  have 1: "map_option updated_at (get_video_by_id w' ''a'')
          = map_option updated_at (get_video_by_id soccer_catalog ''a'')"
    using f(1,2,3) by simp
  have 2: "map_option status (get_video_by_id w' ''a'') = Some COMPLETED"
    using f(2,4) v by (simp add: mk_video_def)
  have 3: "get_video_by_id w' ''b'' = get_video_by_id soccer_catalog ''b''"
    using f(5) by simp
  have 4: "map fst (videos_db w') = [''a'', ''b'', ''c'', ''d'', ''e'']"
    using f(6) by (simp add: example_defs)
  show ?thesis
    using r 1 2 3 4 by - (intro exI [of _ a] exI [of _ w'] conjI, assumption+)
qed

subsection \<open>The payload of an analysis\<close>

lemma soccer_payload:
  "payload_of (analyze_video soccer_catalog ''a'' (goal_request t) ''n1'')
     = Some (JDict [(''analysis_type'', JStr t), (''parameters'', JDict []),
                    (''results'', placeholder_results)])"
  by (simp add: payload_of_def analyze_video_def get_video_by_id_def datetime_now_def Let_def
        example_defs)

lemma soccer_results:
  "results_of (analyze_video soccer_catalog ''a'' (goal_request t) ''n1'')
     = Some placeholder_results"
  by (simp add: results_of_def analyze_video_def get_video_by_id_def datetime_now_def Let_def
        example_defs)

text \<open>
  C6 as stated (the payload has a structure of its own for each of the three analysis
  types, and an unknown type gives an error payload) does not hold of \<open>analyze\<close>: the
  payloads for \<open>goal_detection\<close> and \<open>player_tracking\<close> have the same keys and the same
  \<open>results\<close> entry, and the payload for an unknown type is that same placeholder, with
  no error in it.
\<close>

theorem analyze_payload_uniform:
  "map_option json_keys
       (payload_of (analyze_video soccer_catalog ''a'' (goal_request ''goal_detection'') ''n1''))
     = map_option json_keys
         (payload_of (analyze_video soccer_catalog ''a'' (goal_request ''player_tracking'') ''n1''))
   \<and> results_of (analyze_video soccer_catalog ''a'' (goal_request ''goal_detection'') ''n1'')
     = results_of (analyze_video soccer_catalog ''a'' (goal_request ''player_tracking'') ''n1'')
   \<and> results_of (analyze_video soccer_catalog ''a'' (goal_request ''no_such_type'') ''n1'')
     = Some placeholder_results
   \<and> json_get placeholder_results ''error'' = None
   \<and> map_option (\<lambda>p. json_get p ''error'')
       (payload_of (analyze_video soccer_catalog ''a'' (goal_request ''no_such_type'') ''n1''))
     = Some None"
  by (simp add: soccer_payload soccer_results) (simp add: placeholder_results_def)

text \<open>
  C6, amended: on a COMPLETED video \<open>analyze\<close> succeeds for every analysis type, known
  or not, and its payload is always the analysis type, the parameters (an empty mapping
  when none are given) and the fixed placeholder under \<open>results\<close>; it never carries an
  error entry.
\<close>

theorem analyze_video_placeholder:
  assumes "get_video_by_id w video_id = Some v" and "status v = COMPLETED"
  shows "\<exists>a w'. analyze_video w video_id req u = Inr (a, w')
           \<and> result_data a =
               JDict [(''analysis_type'', JStr (analysis_type_q req)),
                      (''parameters'', JDict (case parameters req of None \<Rightarrow> [] | Some p \<Rightarrow> p)),
                      (''results'', placeholder_results)]
           \<and> json_get (result_data a) ''results'' = Some placeholder_results
           \<and> json_get (result_data a) ''error'' = None"
  using assms
  by (simp add: analyze_video_def datetime_now_def Let_def)


theorem analyze_video_placeholder_witness:
  "map_option status (get_video_by_id soccer_catalog ''a'') = Some COMPLETED
   \<and> (\<exists>a w'. analyze_video soccer_catalog ''a'' (goal_request ''no_such_type'') ''n1'' = Inr (a, w')
          \<and> result_data a =
               JDict [(''analysis_type'', JStr ''no_such_type''), (''parameters'', JDict []),
                      (''results'', placeholder_results)])"
proof -
  have h1: "get_video_by_id soccer_catalog ''a''
              = Some (mk_video ''a'' (Some ''soccer'') (Some [''X'', ''Y'']) None 1)"
    by (simp add: get_video_by_id_def example_defs)
  have h2: "status (mk_video ''a'' (Some ''soccer'') (Some [''X'', ''Y'']) None 1) = COMPLETED"
    by (simp add: mk_video_def)
  have s: "map_option status (get_video_by_id soccer_catalog ''a'') = Some COMPLETED"
    by (simp add: h1 h2)
  from analyze_video_placeholder [OF h1 h2, of "goal_request ''no_such_type''" "''n1''"]
  obtain a w' where
    r: "analyze_video soccer_catalog ''a'' (goal_request ''no_such_type'') ''n1'' = Inr (a, w')"
      "result_data a =
         JDict [(''analysis_type'', JStr (analysis_type_q (goal_request ''no_such_type''))),
                (''parameters'',
                   JDict (case parameters (goal_request ''no_such_type'') of
                            None \<Rightarrow> [] | Some p \<Rightarrow> p)),
                (''results'', placeholder_results)]"
    by blast
  have r2: "result_data a =
               JDict [(''analysis_type'', JStr ''no_such_type''), (''parameters'', JDict []),
                      (''results'', placeholder_results)]"
    using r(2) by (simp add: goal_request_def)
  show ?thesis
    using s r(1) r2 by - (intro conjI exI [of _ a] exI [of _ w'], assumption+)
qed

text \<open>The payloads that differ by type, and the error payload for an unknown type, are
  those of the provider function \<open>analyze_video_content\<close>, which \<open>analyze\<close> does not call.\<close>

lemma provider_shapes:
  "json_keys detect_goals
     = [''goals_detected'', ''goal_timestamps'', ''confidence_scores'', ''scoring_team'']"
  "json_keys track_players = [''players_tracked'', ''tracking_data'', ''team_possession'']"
  "json_keys analyze_tactics = [''formation_detected'', ''tactical_events'', ''possession_stats'']"
  by (simp_all add: detect_goals_def track_players_def analyze_tactics_def)

lemma provider_by_type:
  "json_get (analyze_video_content Opened ts ''goal_detection'') ''results'' = Some detect_goals"
  "json_get (analyze_video_content Opened ts ''player_tracking'') ''results'' = Some track_players"
  "json_get (analyze_video_content Opened ts ''tactical_analysis'') ''results''
     = Some analyze_tactics"
  by (simp_all add: analyze_video_content_def)

lemma provider_unrecognised:
  assumes "t \<noteq> ''goal_detection''" "t \<noteq> ''player_tracking''" "t \<noteq> ''tactical_analysis''"
  shows "json_get (analyze_video_content Opened ts t) ''results''
           = Some (JDict [(''error'', JStr ''unsupported analysis type'')])"
  using assms by (simp add: analyze_video_content_def)

section \<open>Deletion\<close>

lemma delete_values_ids:
  assumes "list_all (\<lambda>(k, v). id_v v = k) al" "x \<in> snd ` set (AList.delete k al)"
  shows "id_v x \<noteq> k"
  using assms by (induction al) (auto simp: AList.delete_eq split: if_splits)

text \<open>
  C10: \<open>delete\<close> on an id that is not in the catalog raises the 404 error, and whenever
  it returns, it returns \<open>True\<close>.
\<close>

theorem delete_video_result:
  "(get_video_by_id w video_id = None
      \<longrightarrow> delete_video w video_id = Inl (HTTPException 404 VideoNotFound))
   \<and> (\<forall>b w'. delete_video w video_id = Inr (b, w') \<longrightarrow> b)"
  by (auto simp: delete_video_def Let_def split: option.splits)


theorem delete_video_result_witness:
  "get_video_by_id soccer_catalog ''zz'' = None
   \<and> delete_video soccer_catalog ''zz'' = Inl (HTTPException 404 VideoNotFound)
   \<and> (\<exists>w'. delete_video soccer_catalog ''a'' = Inr (True, w'))"
proof -
  have h: "get_video_by_id soccer_catalog ''zz'' = None"
    by (simp add: get_video_by_id_def example_defs)
  have e: "\<exists>b w'. delete_video soccer_catalog ''a'' = Inr (b, w')"
    by (auto simp: delete_video_def get_video_by_id_def example_defs Let_def)
  then obtain b w' where d: "delete_video soccer_catalog ''a'' = Inr (b, w')" by blast
  have "b" using delete_video_result [of soccer_catalog "''a''"] d by blast
  then show ?thesis
    using h d delete_video_result [of soccer_catalog "''zz''"] by auto
qed

text \<open>
  C7: \<open>delete\<close> on an existing id succeeds and leaves a catalog in which \<open>get\<close> finds
  nothing under the id and no listing contains a record with that id, also when the file
  cannot be removed: then the file stays, the failure is logged, and the record is
  removed all the same. The catalog is taken to be keyed by the ids of its records.
\<close>

theorem delete_video_removes:
  assumes found: "get_video_by_id w video_id = Some v"
    and keys: "keys_ok w"
  shows "\<exists>w'. delete_video w video_id = Inr (True, w')
           \<and> get_video_by_id w' video_id = None
           \<and> (\<forall>limit offset. \<forall>x \<in> set (get_video_history w' limit offset). id_v x \<noteq> video_id)
           \<and> (file_path v \<in> files w \<and> file_path v \<in> io_fails w
                \<longrightarrow> files w' = files w \<and> log w' = log w @ [FileDeleteError])"
proof -
  define w1 where "w1 = remove_file w (file_path v)"
  define w' where "w' = w1\<lparr>videos_db := AList.delete video_id (videos_db w1)\<rparr>"
  have db1: "videos_db w1 = videos_db w"
    by (simp add: w1_def remove_file_def)
  have mem: "video_id \<in> fst ` set (videos_db w1)"
    using found unfolding db1 get_video_by_id_def by (metis domI dom_map_of_conv_image_fst)
  have res: "delete_video w video_id = Inr (True, w')"
    using found mem by (simp add: delete_video_def Let_def w1_def w'_def)
  have gone: "get_video_by_id w' video_id = None"
    by (simp add: get_video_by_id_def w'_def delete_conv')
  have hist: "id_v x \<noteq> video_id" if "x \<in> set (get_video_history w' limit offset)"
    for x limit offset
  proof -
    have "x \<in> set (sort_desc created_at (map snd (videos_db w')))"
      using that unfolding get_video_history_def Let_def
      by (rule subsetD [OF set_py_slice])
    then have "x \<in> snd ` set (AList.delete video_id (videos_db w))"
      by (simp add: sort_desc_def w'_def db1)
    then show ?thesis
      using keys delete_values_ids unfolding keys_ok_def by blast
  qed
  have fs: "files w' = files w \<and> log w' = log w @ [FileDeleteError]"
    if "file_path v \<in> files w \<and> file_path v \<in> io_fails w"
    using that by (simp add: w'_def w1_def remove_file_def)
  show ?thesis
    using res gone hist fs by blast
qed


theorem delete_video_removes_witness:
  "map_option id_v (get_video_by_id locked_catalog ''a'') = Some ''a''
   \<and> keys_ok locked_catalog
   \<and> ''uploads/a.mp4'' \<in> files locked_catalog \<and> ''uploads/a.mp4'' \<in> io_fails locked_catalog
   \<and> map id_v (get_video_history locked_catalog 20 0) = [''b'', ''a'']
   \<and> (\<exists>w'. delete_video locked_catalog ''a'' = Inr (True, w')
          \<and> get_video_by_id w' ''a'' = None
          \<and> map id_v (get_video_history w' 20 0) = [''b'']
          \<and> (\<forall>x \<in> set (get_video_history w' 20 0). id_v x \<noteq> ''a'')
          \<and> files w' = files locked_catalog
          \<and> log w' = [FileDeleteError])"
proof -
  have h1: "get_video_by_id locked_catalog ''a'' = Some (mk_video ''a'' None None None 1)"
    by (simp add: get_video_by_id_def example_defs)
  have h2: "keys_ok locked_catalog"
    by (simp add: keys_ok_def example_defs)
  have f: "''uploads/a.mp4'' \<in> files locked_catalog" "''uploads/a.mp4'' \<in> io_fails locked_catalog"
    by (simp_all add: example_defs)
  have p: "file_path (mk_video ''a'' None None None 1) = ''uploads/a.mp4''"
    by (simp add: mk_video_def)
  have before: "map id_v (get_video_history locked_catalog 20 0) = [''b'', ''a'']"
    by (simp add: get_video_history_def example_defs py_slice_def slice_index_def sort_desc_def)
  from delete_video_removes [OF h1 h2] obtain w' where
    w': "delete_video locked_catalog ''a'' = Inr (True, w')"
      "get_video_by_id w' ''a'' = None"
      "\<forall>limit offset. \<forall>x \<in> set (get_video_history w' limit offset). id_v x \<noteq> ''a''"
      "file_path (mk_video ''a'' None None None 1) \<in> files locked_catalog
         \<and> file_path (mk_video ''a'' None None None 1) \<in> io_fails locked_catalog
        \<longrightarrow> files w' = files locked_catalog \<and> log w' = log locked_catalog @ [FileDeleteError]"
    by blast
  have w'_eq: "w' = locked_catalog\<lparr>videos_db := [(''b'', mk_video ''b'' None None None 2)],
                                    log := [FileDeleteError]\<rparr>"
    using w'(1)
    by (simp add: delete_video_def get_video_by_id_def remove_file_def Let_def example_defs)
  have after: "map id_v (get_video_history w' 20 0) = [''b'']"
    unfolding w'_eq
    by (simp add: get_video_history_def example_defs py_slice_def slice_index_def sort_desc_def)
  have a4: "\<forall>x \<in> set (get_video_history w' 20 0). id_v x \<noteq> ''a''"
    using w'(3) by blast
  have a5: "files w' = files locked_catalog" "log w' = [FileDeleteError]"
    using w'(4) f unfolding p by (simp_all add: example_defs)
  have m: "map_option id_v (get_video_by_id locked_catalog ''a'') = Some ''a''"
    by (simp add: h1 mk_video_def)
  show ?thesis
    using m h2 f before w'(1,2) after a4 a5
    by - (intro conjI exI [of _ w'], assumption+)
qed

section \<open>Timestamps along a run\<close>

lemma clock_mono: "mono c \<Longrightarrow> (m::nat) \<le> n \<Longrightarrow> (c m :: int) \<le> c n"
  by (rule monoD)

lemma advances_refl: "advances w w"
  by (simp add: advances_def)

lemma advances_trans:
  assumes ab: "advances a b" and bc: "advances b c" and m: "mono (clock a)"
  shows "advances a c"
proof -
  have cl: "clock b = clock a" "clock c = clock a" "ticks a \<le> ticks b" "ticks b \<le> ticks c"
    using ab bc by (simp_all add: advances_def)
  have inv: "ts_inv a \<longrightarrow> ts_inv c"
    using ab bc by (simp add: advances_def)
  have upd: "(\<exists>v. map_of (videos_db a) k = Some v \<and> updated_at v'' = updated_at v)
               \<or> clock a (ticks a) \<le> updated_at v''"
    if c: "map_of (videos_db c) k = Some v''" for k v''
  proof -
    from bc c have "(\<exists>v'. map_of (videos_db b) k = Some v' \<and> updated_at v'' = updated_at v')
                      \<or> clock b (ticks b) \<le> updated_at v''"
      unfolding advances_def by blast
    then show ?thesis
    proof
      assume "\<exists>v'. map_of (videos_db b) k = Some v' \<and> updated_at v'' = updated_at v'"
      then obtain v' where b: "map_of (videos_db b) k = Some v'" "updated_at v'' = updated_at v'"
        by blast
      from ab b(1) have "(\<exists>v. map_of (videos_db a) k = Some v \<and> updated_at v' = updated_at v)
                      \<or> clock a (ticks a) \<le> updated_at v'"
        unfolding advances_def by blast
      then show ?thesis using b(2) by auto
    next
      assume "clock b (ticks b) \<le> updated_at v''"
      moreover have "clock a (ticks a) \<le> clock a (ticks b)"
        using m cl(3) by (rule clock_mono)
      ultimately show ?thesis using cl(1) by simp
    qed
  qed
  show ?thesis
    unfolding advances_def using cl inv upd by auto
qed

lemma advances_files: "advances w (w\<lparr>files := fs\<rparr>)"
  by (simp add: advances_def ts_inv_def)

lemma advances_log: "advances w (w\<lparr>log := l\<rparr>)"
  by (simp add: advances_def ts_inv_def)

lemma store_video_advances:
  assumes m: "mono (clock w)"
  shows "advances w (snd (store_video w i t d p n s md ts))"
proof -
  have 1: "clock w (ticks w) \<le> clock w (Suc (ticks w))"
    using m by (rule clock_mono) simp
  have 2: "clock w (Suc (ticks w)) \<le> clock w (Suc (Suc (ticks w)))"
    using m by (rule clock_mono) simp
  show ?thesis
    unfolding advances_def ts_inv_def store_video_def datetime_now_def Let_def
    using 1 2 by (auto simp: update_conv') (meson order_trans)+
qed

lemma begin_processing_advances:
  assumes m: "mono (clock w)"
  shows "advances w (begin_processing w i)"
proof (cases "map_of (videos_db w) i")
  case None
  then show ?thesis by (simp add: begin_processing_def advances_refl)
next
  case (Some video)
  have 1: "clock w (ticks w) \<le> clock w (Suc (ticks w))"
    using m by (rule clock_mono) simp
  show ?thesis
    unfolding advances_def ts_inv_def begin_processing_def datetime_now_def Let_def
    using 1 Some by (auto simp: update_conv') (meson order_trans)+
qed

lemma finish_processing_advances:
  assumes m: "mono (clock w)"
  shows "advances w (finish_processing w i ok)"
proof (cases "map_of (videos_db w) i")
  case None
  then show ?thesis by (simp add: finish_processing_def advances_refl)
next
  case (Some video)
  have 1: "clock w (ticks w) \<le> clock w (Suc (ticks w))"
    using m by (rule clock_mono) simp
  show ?thesis
    unfolding advances_def ts_inv_def finish_processing_def datetime_now_def Let_def
    using 1 Some by (auto simp: update_conv') (meson order_trans)+
qed


lemma remove_file_advances: "advances w (remove_file w p)"
  by (simp add: remove_file_def advances_files advances_log advances_refl)

lemma analyze_video_advances:
  assumes m: "mono (clock w)" and r: "analyze_video w i req u = Inr (a, w')"
  shows "advances w w'"
proof -
  have 1: "clock w (ticks w) \<le> clock w (Suc (ticks w))"
    using m by (rule clock_mono) simp
  show ?thesis
    using r 1
    unfolding advances_def ts_inv_def analyze_video_def get_video_by_id_def datetime_now_def
      Let_def
    by (auto simp: update_conv' split: option.splits if_splits) (meson order_trans)+
qed

lemma delete_video_advances:
  assumes r: "delete_video w i = Inr (b, w')"
  shows "advances w w'"
proof -
  obtain video where v: "map_of (videos_db w) i = Some video"
    using r by (auto simp: delete_video_def get_video_by_id_def split: option.splits)
  define w1 where "w1 = remove_file w (file_path video)"
  have a1: "advances w w1"
    unfolding w1_def by (rule remove_file_advances)
  have w': "w' = w1 \<or> w' = w1\<lparr>videos_db := AList.delete i (videos_db w1)\<rparr>"
    using r v by (auto simp: delete_video_def get_video_by_id_def Let_def w1_def split: if_splits)
  have a2: "advances w1 (w1\<lparr>videos_db := AList.delete i (videos_db w1)\<rparr>)"
    unfolding advances_def ts_inv_def by (auto simp: delete_conv' split: if_splits)
  have same: "clock w1 = clock w" "ticks w1 = ticks w" "videos_db w1 = videos_db w"
    by (simp_all add: w1_def remove_file_def)
  from w' show ?thesis
  proof
    assume "w' = w1" then show ?thesis using a1 by simp
  next
    assume e: "w' = w1\<lparr>videos_db := AList.delete i (videos_db w1)\<rparr>"
    show ?thesis
      unfolding e advances_def ts_inv_def using same
      by (auto simp: delete_conv' split: if_splits)
  qed
qed

lemma process_video_advances:
  assumes m: "mono (clock w)"
  shows "advances w (process_video w i ok)"
proof (cases "map_of (videos_db w) i")
  case None
  then show ?thesis by (simp add: process_video_def advances_refl)
next
  case (Some video)
  have b: "advances w (begin_processing w i)"
    using m by (rule begin_processing_advances)
  then have m': "mono (clock (begin_processing w i))"
    using m by (simp add: advances_def)
  have f: "advances (begin_processing w i) (finish_processing (begin_processing w i) i ok)"
    using m' by (rule finish_processing_advances)
  show ?thesis
    using Some advances_trans [OF b f m] by (simp add: process_video_def)
qed

lemma upload_video_world:
  assumes "upload_video w fl t d s md ts u ok = Inr (v, w')"
  shows "w' = process_video
                (snd (store_video
                        (w\<lparr>files := insert (''uploads/'' @ u @ lower (splitext_ext (filename fl)))
                                      (files w)\<rparr>)
                        u t d (''uploads/'' @ u @ lower (splitext_ext (filename fl)))
                        (size_f fl) s md ts))
                u ok"
  using assms unfolding upload_video_def Let_def
  by (auto split: if_splits prod.splits option.splits)

lemma upload_video_advances:
  assumes m: "mono (clock w)" and r: "upload_video w fl t d s md ts u ok = Inr (v, w')"
  shows "advances w w'"
proof -
  define p where "p = ''uploads/'' @ u @ lower (splitext_ext (filename fl))"
  define w1 where "w1 = w\<lparr>files := insert p (files w)\<rparr>"
  define w2 where "w2 = snd (store_video w1 u t d p (size_f fl) s md ts)"
  have w': "w' = process_video w2 u ok"
    using upload_video_world [OF r] by (simp add: p_def w1_def w2_def)
  have a1: "advances w w1"
    unfolding w1_def by (rule advances_files)
  have m1: "mono (clock w1)"
    using m by (simp add: w1_def)
  have a2: "advances w1 w2"
    unfolding w2_def using m1 by (rule store_video_advances)
  have m2: "mono (clock w2)"
    using a2 m1 by (simp add: advances_def)
  have a3: "advances w2 w'"
    unfolding w' using m2 by (rule process_video_advances)
  show ?thesis
    using advances_trans [OF advances_trans [OF a1 a2 m] a3 m] .
qed

lemma apply_event_advances:
  assumes m: "mono (clock w)"
  shows "advances w (apply_event e w)"
proof (cases e)
  case (Upload fl t d s md ts u ok)
  then show ?thesis
    using upload_video_advances [OF m] advances_refl
    by (auto split: sum.splits)
next
  case (Store i t d p n s md ts)
  then show ?thesis using store_video_advances [OF m] by simp
next
  case (Begin i)
  then show ?thesis using begin_processing_advances [OF m] by simp
next
  case (Finish i ok)
  then show ?thesis using finish_processing_advances [OF m] by simp
next
  case (Analyze i req u)
  then show ?thesis
    using analyze_video_advances [OF m] advances_refl
    by (auto split: sum.splits)
next
  case (Delete i)
  then show ?thesis
    using delete_video_advances advances_refl
    by (auto split: sum.splits)
qed

lemma run_advances: "mono (clock w) \<Longrightarrow> advances w (run evs w)"
proof (induction evs arbitrary: w)
  case Nil
  then show ?case by (simp add: run_def advances_refl)
next
  case (Cons e evs)
  have a1: "advances w (apply_event e w)"
    using Cons.prems by (rule apply_event_advances)
  then have m1: "mono (clock (apply_event e w))"
    using Cons.prems by (simp add: advances_def)
  have a2: "advances (apply_event e w) (run evs (apply_event e w))"
    using m1 by (rule Cons.IH)
  show ?case
    using advances_trans [OF a1 a2 Cons.prems] by (simp add: run_def)
qed

lemma ts_inv_init: "ts_inv (init c fails)"
  by (simp add: ts_inv_def init_def)

text \<open>
  C9: with a clock that never goes back, in every state the service reaches from its
  start every record was last updated no earlier than it was created, and whatever calls
  and pipeline stages follow, the record found under an id is never updated earlier than
  the record found under that id before.
\<close>

theorem timestamps_monotone:
  assumes m: "mono c"
  shows "(\<forall>k v. get_video_by_id (run evs1 (init c fails)) k = Some v
            \<longrightarrow> created_at v \<le> updated_at v)
       \<and> (\<forall>k v v'. get_video_by_id (run evs1 (init c fails)) k = Some v
              \<and> get_video_by_id (run evs2 (run evs1 (init c fails))) k = Some v'
            \<longrightarrow> updated_at v \<le> updated_at v')"
proof -
  define w0 where "w0 = init c fails"
  define w1 where "w1 = run evs1 w0"
  define w2 where "w2 = run evs2 w1"
  have m0: "mono (clock w0)"
    using m by (simp add: w0_def init_def)
  have a1: "advances w0 w1"
    unfolding w1_def using m0 by (rule run_advances)
  have i1: "ts_inv w1"
    using a1 ts_inv_init unfolding advances_def w0_def by blast
  have m1: "mono (clock w1)"
    using a1 m0 by (simp add: advances_def)
  have a2: "advances w1 w2"
    unfolding w2_def using m1 by (rule run_advances)
  have p1: "created_at v \<le> updated_at v" if "get_video_by_id w1 k = Some v" for k v
    using i1 that unfolding ts_inv_def get_video_by_id_def by blast
  have p2: "updated_at v \<le> updated_at v'"
    if "get_video_by_id w1 k = Some v" "get_video_by_id w2 k = Some v'" for k v v'
  proof -
    have "(\<exists>x. map_of (videos_db w1) k = Some x \<and> updated_at v' = updated_at x)
            \<or> clock w1 (ticks w1) \<le> updated_at v'"
      using a2 that(2) unfolding advances_def get_video_by_id_def by blast
    moreover have "updated_at v \<le> clock w1 (ticks w1)"
      using i1 that(1) unfolding ts_inv_def get_video_by_id_def by blast
    ultimately show ?thesis
      using that(1) unfolding get_video_by_id_def by auto
  qed
  show ?thesis
    using p1 p2 unfolding w2_def w1_def w0_def by blast
qed


lemma mono_seconds: "mono seconds"
  by (rule monoI) (simp add: seconds_def)

lemma stored_example:
  "get_video_by_id
     (run [Store ''u1'' ''final'' None ''uploads/u1.mp4'' 1024 None None None] (init seconds {}))
     ''u1''
   = Some \<lparr>id_v = ''u1'', title = ''final'', description = None,
           file_path = ''uploads/u1.mp4'', file_size = 1024, duration = None,
           status = UPLOADING, sport_type = None, match_date = None, teams = None,
           created_at = 0, updated_at = 1000000, analyses = Some []\<rparr>"
  by (simp add: run_def get_video_by_id_def store_video_def datetime_now_def init_def
        seconds_def Let_def)

lemma processed_example:
  "get_video_by_id
     (run [Begin ''u1'', Finish ''u1'' True]
        (run [Store ''u1'' ''final'' None ''uploads/u1.mp4'' 1024 None None None]
           (init seconds {})))
     ''u1''
   = Some \<lparr>id_v = ''u1'', title = ''final'', description = None,
           file_path = ''uploads/u1.mp4'', file_size = 1024, duration = None,
           status = COMPLETED, sport_type = None, match_date = None, teams = None,
           created_at = 0, updated_at = 3000000, analyses = Some []\<rparr>"
  by (simp add: run_def get_video_by_id_def store_video_def begin_processing_def
        finish_processing_def datetime_now_def init_def seconds_def Let_def)

theorem timestamps_monotone_witness:
  "mono seconds
   \<and> (\<exists>v v'. get_video_by_id
                 (run [Store ''u1'' ''final'' None ''uploads/u1.mp4'' 1024 None None None]
                    (init seconds {})) ''u1'' = Some v
          \<and> get_video_by_id
                 (run [Begin ''u1'', Finish ''u1'' True]
                    (run [Store ''u1'' ''final'' None ''uploads/u1.mp4'' 1024 None None None]
                       (init seconds {}))) ''u1'' = Some v'
          \<and> status v = UPLOADING \<and> status v' = COMPLETED
          \<and> updated_at v = 1000000 \<and> updated_at v' = 3000000
          \<and> created_at v \<le> updated_at v \<and> updated_at v \<le> updated_at v')"
proof -
  let ?e1 = "[Store ''u1'' ''final'' None ''uploads/u1.mp4'' 1024 None None None]"
  let ?e2 = "[Begin ''u1'', Finish ''u1'' True]"
  obtain v where v: "get_video_by_id (run ?e1 (init seconds {})) ''u1'' = Some v"
    "status v = UPLOADING" "updated_at v = 1000000"
    using stored_example by simp
  obtain v' where v': "get_video_by_id (run ?e2 (run ?e1 (init seconds {}))) ''u1'' = Some v'"
    "status v' = COMPLETED" "updated_at v' = 3000000"
    using processed_example by simp
  have le1: "created_at v \<le> updated_at v"
    using timestamps_monotone [OF mono_seconds, of ?e1 "{}" ?e2] v(1) by blast
  have le2: "updated_at v \<le> updated_at v'"
    using timestamps_monotone [OF mono_seconds, of ?e1 "{}" ?e2] v(1) v'(1) by blast
  show ?thesis
    using mono_seconds v v' le1 le2
    by - (intro conjI exI [of _ v] exI [of _ v'], assumption+)
qed

section \<open>The keys of the catalog\<close>

text \<open>Every state the service reaches from its start is keyed by the ids of its records.\<close>

lemma keys_ok_update:
  "list_all (\<lambda>(k, v). id_v v = k) al \<Longrightarrow> id_v x = i
     \<Longrightarrow> list_all (\<lambda>(k, v). id_v v = k) (AList.update i x al)"
  by (induction al) auto

lemma keys_ok_delete:
  "list_all (\<lambda>(k, v). id_v v = k) al \<Longrightarrow> list_all (\<lambda>(k, v). id_v v = k) (AList.delete i al)"
  by (induction al) auto

lemma keys_ok_lookup:
  "list_all (\<lambda>(k, v). id_v v = k) al \<Longrightarrow> map_of al i = Some x \<Longrightarrow> id_v x = i"
  by (induction al) (auto split: if_splits)

lemma store_video_keys: "keys_ok w \<Longrightarrow> keys_ok (snd (store_video w i t d p n s md ts))"
  by (simp add: keys_ok_def store_video_def datetime_now_def Let_def keys_ok_update)

lemma begin_processing_keys: "keys_ok w \<Longrightarrow> keys_ok (begin_processing w i)"
  by (auto simp: keys_ok_def begin_processing_def datetime_now_def Let_def
        intro!: keys_ok_update dest: keys_ok_lookup split: option.splits)

lemma finish_processing_keys: "keys_ok w \<Longrightarrow> keys_ok (finish_processing w i ok)"
  by (auto simp: keys_ok_def finish_processing_def datetime_now_def Let_def
        intro!: keys_ok_update dest: keys_ok_lookup split: option.splits)

lemma process_video_keys: "keys_ok w \<Longrightarrow> keys_ok (process_video w i ok)"
  by (simp add: process_video_def begin_processing_keys finish_processing_keys
        split: option.splits)

lemma upload_video_keys:
  assumes "keys_ok w" "upload_video w fl t d s md ts u ok = Inr (v, w')"
  shows "keys_ok w'"
proof -
  define p where "p = ''uploads/'' @ u @ lower (splitext_ext (filename fl))"
  define w1 where "w1 = w\<lparr>files := insert p (files w)\<rparr>"
  define w2 where "w2 = snd (store_video w1 u t d p (size_f fl) s md ts)"
  have w': "w' = process_video w2 u ok"
    using upload_video_world [OF assms(2)] by (simp add: p_def w1_def w2_def)
  have "keys_ok w1" using assms(1) by (simp add: keys_ok_def w1_def)
  then have "keys_ok w2" unfolding w2_def by (rule store_video_keys)
  then show ?thesis unfolding w' by (rule process_video_keys)
qed

lemma analyze_video_keys:
  assumes "keys_ok w" "analyze_video w i req u = Inr (a, w')"
  shows "keys_ok w'"
  using assms
  by (auto simp: keys_ok_def analyze_video_def get_video_by_id_def datetime_now_def Let_def
        intro!: keys_ok_update split: option.splits if_splits)
     (erule (1) keys_ok_lookup)+

lemma delete_video_keys:
  assumes "keys_ok w" "delete_video w i = Inr (b, w')"
  shows "keys_ok w'"
  using assms
  by (auto simp: keys_ok_def delete_video_def get_video_by_id_def remove_file_def Let_def
        intro!: keys_ok_delete split: option.splits if_splits)

lemma apply_event_keys: "keys_ok w \<Longrightarrow> keys_ok (apply_event e w)"
proof (cases e)
  case (Upload fl t d s md ts u ok)
  assume "keys_ok w"
  then show ?thesis
    using Upload upload_video_keys by (auto split: sum.splits)
next
  case (Store i t d p n s md ts)
  assume "keys_ok w"
  then show ?thesis using Store by (simp add: store_video_keys)
next
  case (Begin i)
  assume "keys_ok w"
  then show ?thesis using Begin by (simp add: begin_processing_keys)
next
  case (Finish i ok)
  assume "keys_ok w"
  then show ?thesis using Finish by (simp add: finish_processing_keys)
next
  case (Analyze i req u)
  assume "keys_ok w"
  then show ?thesis
    using Analyze analyze_video_keys by (auto split: sum.splits)
next
  case (Delete i)
  assume "keys_ok w"
  then show ?thesis
    using Delete delete_video_keys by (auto split: sum.splits)
qed

lemma run_keys_ok: "keys_ok (run evs (init c fails))"
proof -
  have "keys_ok w \<Longrightarrow> keys_ok (run evs w)" for w
    by (induction evs arbitrary: w) (simp_all add: run_def apply_event_keys)
  moreover have "keys_ok (init c fails)"
    by (simp add: keys_ok_def init_def)
  ultimately show ?thesis by blast
qed

end
